theory Spec2Isabelle
  imports Main "HOL-Library.Sublist"
begin

section \<open>The blm parser (blm-parser/parser.js)\<close>

text \<open>
  A shallow embedding of \<^verbatim>\<open>parser.js\<close>. JavaScript strings are modelled as
  \<^typ>\<open>string\<close>: the characters are the code units below 256. Every function of the
  module builds a promise in an executor; a promise is settled once, so the executor's
  later calls of \<^verbatim>\<open>resolve\<close> and \<^verbatim>\<open>reject\<close>, and an exception
  that escapes it, change nothing. The model threads the promise's state through each
  executor in the order of the source's statements.
\<close>

subsection \<open>Values, errors and promises\<close>

text \<open>
  The errors of the module: \<^verbatim>\<open>new Error(message)\<close>, and the two errors the
  engine raises itself (reading a property of \<^verbatim>\<open>null\<close> or
  \<^verbatim>\<open>undefined\<close>, calling what is not a function: a TypeError; reading an
  unbound identifier: a ReferenceError). The engine's message texts are its own.
\<close>

datatype js_error = Error string | TypeError | ReferenceError

datatype 'a promise = Pending | Fulfilled 'a | Rejected js_error

definition resolve :: "'a \<Rightarrow> 'a promise \<Rightarrow> 'a promise" where
  "resolve v p = (case p of Pending \<Rightarrow> Fulfilled v | _ \<Rightarrow> p)"

definition reject :: "js_error \<Rightarrow> 'a promise \<Rightarrow> 'a promise" where
  "reject e p = (case p of Pending \<Rightarrow> Rejected e | _ \<Rightarrow> p)"

text \<open>An exception that leaves the executor rejects the promise, if it is still pending.\<close>

definition throw :: "js_error \<Rightarrow> 'a promise \<Rightarrow> 'a promise" where
  "throw e p = reject e p"

text \<open>
  The values a caller can pass as \<^verbatim>\<open>fileHandle\<close>. Any value that is neither
  \<^verbatim>\<open>undefined\<close>, \<^verbatim>\<open>null\<close> nor a primitive string (a boolean, a
  number, a symbol, an object, a function) is seen through the two operations the module
  applies to it: its \<^verbatim>\<open>split\<close> method (\<open>None\<close>: absent or throwing;
  otherwise the pieces it returns) and its conversion to a string in a template literal
  (\<open>None\<close>: throwing).
\<close>

datatype js_value =
    JUndefined
  | JNull
  | JString string
  | JOther "string list option" "string option"

text \<open>
  An object literal with string keys, as the list of its own properties in the order
  of their first assignment. The list is read as a mapping: the engine enumerates keys
  that are array indices first, in ascending order, which the list does not show.
  Assigning to an existing key replaces its value in place;
  assigning a string or \<^verbatim>\<open>undefined\<close> to \<^verbatim>\<open>__proto__\<close> reaches the
  setter of \<^verbatim>\<open>Object.prototype\<close>, which ignores such a value and creates no
  property.
\<close>

type_synonym 'v js_object = "(string \<times> 'v) list"

fun assign :: "string \<Rightarrow> 'v \<Rightarrow> 'v js_object \<Rightarrow> 'v js_object" where
  "assign k v [] = [(k, v)]"
| "assign k v (p # ps) = (if fst p = k then (k, v) # ps else p # assign k v ps)"

definition set_prop :: "'v js_object \<Rightarrow> string \<Rightarrow> 'v \<Rightarrow> 'v js_object" where
  "set_prop obj k v = (if k = ''__proto__'' then obj else assign k v obj)"

text \<open>A header value is a string or \<^verbatim>\<open>undefined\<close> (\<open>None\<close>); a data value is a string.\<close>

type_synonym header = "string option js_object"
type_synonym data_object = "string js_object"

text \<open>
  \<^verbatim>\<open>header.EOF\<close>, \<^verbatim>\<open>header.EOR\<close>: \<^verbatim>\<open>undefined\<close> when the key is
  absent or holds \<^verbatim>\<open>undefined\<close> (\<^verbatim>\<open>Object.prototype\<close> has neither key).
\<close>

definition get_prop :: "header \<Rightarrow> string \<Rightarrow> string option" where
  "get_prop h k = (case map_of h k of Some v \<Rightarrow> v | None \<Rightarrow> None)"

subsection \<open>String operations of the engine\<close>

text \<open>The white space and line terminators of ECMAScript below code unit 256.\<close>

definition is_space :: "char \<Rightarrow> bool" where
  "is_space c = (c \<in> set [CHR 0x09, CHR 0x0A, CHR 0x0B, CHR 0x0C, CHR 0x0D, CHR 0x20, CHR 0xA0])"

definition trim :: "string \<Rightarrow> string" where
  "trim s = rev (dropWhile is_space (rev (dropWhile is_space s)))"

text \<open>
  \<^verbatim>\<open>S.split(R)\<close> for a string \<open>R\<close>: the pieces between the successive
  occurrences of \<open>R\<close>, searched from the left without overlap. \<open>split_at\<close> is the
  loop for a separator that is not empty: \<open>acc\<close> is the piece being read.
\<close>

fun split_at :: "string \<Rightarrow> string \<Rightarrow> string \<Rightarrow> string list" where
  "split_at sep acc [] = [acc]"
| "split_at sep acc (c # cs) =
     (if prefix sep (c # cs) then acc # split_at sep [] (drop (length sep - 1) cs)
      else split_at sep (acc @ [c]) cs)"

text \<open>An empty separator splits between the code units, and the empty string into no piece.\<close>

definition split_js :: "string \<Rightarrow> string \<Rightarrow> string list" where
  "split_js s sep = (if sep = [] then map (\<lambda>c. [c]) s else split_at sep [] s)"

text \<open>\<^verbatim>\<open>S.split(undefined)\<close> is the one piece \<open>S\<close>.\<close>

definition split_by :: "string \<Rightarrow> string option \<Rightarrow> string list" where
  "split_by s sep = (case sep of None \<Rightarrow> [s] | Some r \<Rightarrow> split_js s r)"

text \<open>
  \<^verbatim>\<open>toUpperCase\<close> on the letters a to z. No other code unit is mapped to one of
  B, L, M, the only letters the module compares the result with.
\<close>

definition toUpperCase_char :: "char \<Rightarrow> char" where
  "toUpperCase_char c =
     (case map_of (zip ''abcdefghijklmnopqrstuvwxyz'' ''ABCDEFGHIJKLMNOPQRSTUVWXYZ'') c of
        Some u \<Rightarrow> u | None \<Rightarrow> c)"

definition toUpperCase :: "string \<Rightarrow> string" where
  "toUpperCase s = map toUpperCase_char s"

text \<open>
  \<^verbatim>\<open>/#MARKER#([\s\S]*?)#/m.exec(text)\<close>: the capture group of the leftmost match,
  \<open>None\<close> when \<^verbatim>\<open>exec\<close> returns \<^verbatim>\<open>null\<close>. The group is lazy: it
  ends before the first \<^verbatim>\<open>#\<close> after the marker.
\<close>

fun exec_section :: "string \<Rightarrow> string \<Rightarrow> string option" where
  "exec_section marker [] = None"
| "exec_section marker (c # cs) =
     (if prefix marker (c # cs) \<and> CHR ''#'' \<in> set (drop (length marker) (c # cs))
      then Some (takeWhile (\<lambda>x. x \<noteq> CHR ''#'') (drop (length marker) (c # cs)))
      else exec_section marker cs)"

text \<open>
  The greedy group of \<^verbatim>\<open>/#DATA#([\s\S]*)#END#/m\<close>: the text before the last
  occurrence of the end marker.
\<close>

fun before_last :: "string \<Rightarrow> string \<Rightarrow> string option" where
  "before_last m [] = (if m = [] then Some [] else None)"
| "before_last m (c # cs) =
     (case before_last m cs of
        Some cap \<Rightarrow> Some (c # cap)
      | None \<Rightarrow> if prefix m (c # cs) then Some [] else None)"

fun exec_data :: "string \<Rightarrow> string option" where
  "exec_data [] = None"
| "exec_data (c # cs) =
     (if prefix ''#DATA#'' (c # cs)
      then (case before_last ''#END#'' (drop 6 (c # cs)) of
              Some cap \<Rightarrow> Some cap
            | None \<Rightarrow> exec_data cs)
      else exec_data cs)"

text \<open>
  \<^verbatim>\<open>elem.replace(/(^[\'\"]|[\'\"]$)/g, '')\<close>: a quote at the start is removed,
  and then a quote at the end of what is left.
\<close>

definition is_quote :: "char \<Rightarrow> bool" where
  "is_quote c = (c = CHR 0x27 \<or> c = CHR 0x22)"

definition unquote :: "string \<Rightarrow> string" where
  "unquote s =
     (let s1 = (case s of [] \<Rightarrow> [] | c # cs \<Rightarrow> if is_quote c then cs else s)
      in if s1 \<noteq> [] \<and> is_quote (last s1) then butlast s1 else s1)"

subsection \<open>validateFileHandle\<close>

text \<open>
  The first test resolves \<^verbatim>\<open>false\<close> and goes on: \<^verbatim>\<open>fileHandle === undefined ||
  typeof fileHandle !== "string" || !fileHandle.hasOwnProperty('length') ||
  fileHandle.length === 0\<close>. A primitive string owns its \<^verbatim>\<open>length\<close>.
\<close>

fun not_nonempty_string :: "js_value \<Rightarrow> bool" where
  "not_nonempty_string (JString s) = (length s = 0)"
| "not_nonempty_string _ = True"

text \<open>\<^verbatim>\<open>fileHandle.split('.')\<close>; \<open>None\<close> when the call throws.\<close>

fun split_method :: "js_value \<Rightarrow> string \<Rightarrow> string list option" where
  "split_method (JString s) sep = Some (split_js s sep)"
| "split_method (JOther sp _) sep = sp"
| "split_method _ sep = None"

definition validateFileHandle :: "js_value \<Rightarrow> bool promise" where
  "validateFileHandle fileHandle =
     (let p = (if not_nonempty_string fileHandle then resolve False Pending else Pending)
      in case split_method fileHandle ''.'' of
           None \<Rightarrow> throw TypeError p
         | Some splitOnFileExtension \<Rightarrow>
             if length splitOnFileExtension \<ge> 2 \<and>
                length (foldl (\<lambda>accum curr. accum @ curr) [] (butlast splitOnFileExtension)) > 0 \<and>
                toUpperCase (last splitOnFileExtension) = ''BLM''
             then resolve True p
             else resolve False p)"

subsection \<open>streamInData\<close>

text \<open>
  The file system is a parameter: what \<^verbatim>\<open>fs.createReadStream(fileHandle)\<close> does.
  It throws at once (an argument that is no path), or the stream emits
  \<^verbatim>\<open>error\<close>, or it emits its chunks and \<^verbatim>\<open>end\<close>.
\<close>

datatype stream = Throws js_error | ErrorEvent | Chunks string

definition streamInData :: "(js_value \<Rightarrow> stream) \<Rightarrow> js_value \<Rightarrow> string promise" where
  "streamInData fs fileHandle =
     (case fs fileHandle of
        Throws e \<Rightarrow> throw e Pending
      | ErrorEvent \<Rightarrow> reject (Error []) Pending
      | Chunks fileStr \<Rightarrow> resolve fileStr Pending)"

subsection \<open>getHeader\<close>

text \<open>
  The body of the \<^verbatim>\<open>reduce\<close> over the header's lines. The destructuring
  \<^verbatim>\<open>[property, value] = ...\<close> takes the first two pieces; a piece that is not
  there is \<^verbatim>\<open>undefined\<close>, and \<^verbatim>\<open>undefined\<close> as a key is the key
  \<^verbatim>\<open>"undefined"\<close>.
\<close>

definition header_line :: "header \<Rightarrow> string \<Rightarrow> header" where
  "header_line accumulator current =
     (if trim current \<noteq> [] then
        (case map (\<lambda>elem. unquote (trim elem)) (split_js (trim current) '':'') of
           [] \<Rightarrow> set_prop accumulator ''undefined'' None
         | [property] \<Rightarrow> set_prop accumulator property None
         | property # value # _ \<Rightarrow> set_prop accumulator property (Some value))
      else accumulator)"

text \<open>Reading \<^verbatim>\<open>[1]\<close> of the \<^verbatim>\<open>null\<close> of a failed match throws.\<close>

definition getHeader :: "string \<Rightarrow> header promise" where
  "getHeader fileStr =
     (case exec_section ''#HEADER#'' fileStr of
        None \<Rightarrow> throw TypeError Pending
      | Some headerStr \<Rightarrow>
          (let lines = split_js headerStr [CHR 0x0A];
               headerData = foldl header_line [] lines
           in resolve headerData Pending))"

subsection \<open>getDefinitions\<close>

text \<open>\<^verbatim>\<open>header === undefined || header.EOF === undefined || header.EOR === undefined\<close>\<close>

definition header_incomplete :: "header option \<Rightarrow> bool" where
  "header_incomplete header =
     (case header of
        None \<Rightarrow> True
      | Some h \<Rightarrow> get_prop h ''EOF'' = None \<or> get_prop h ''EOR'' = None)"

definition definitions_header_error :: js_error where
  "definitions_header_error = Error
     ''ERROR: Error occurred when trying to parse definition section of file. Header data incorrect''"

text \<open>
  \<^verbatim>\<open>definitions[definitions.length - 1]\<close> is \<^verbatim>\<open>undefined\<close> for the empty
  array.
\<close>

definition last_element :: "string list \<Rightarrow> string option" where
  "last_element xs = (if xs = [] then None else Some (last xs))"

definition getDefinitions :: "string \<Rightarrow> header option \<Rightarrow> string list promise" where
  "getDefinitions fileStr header =
     (let p = (if header_incomplete header then reject definitions_header_error Pending
               else Pending)
      in case exec_section ''#DEFINITION#'' fileStr of
           None \<Rightarrow> throw TypeError p
         | Some definitionsStr \<Rightarrow>
             (case header of
                None \<Rightarrow> throw TypeError p
              | Some h \<Rightarrow>
                  (let definitions = map trim (split_by definitionsStr (get_prop h ''EOF''));
                       definitions' =
                         (if last_element definitions = get_prop h ''EOR''
                          then butlast definitions else definitions)
                   in resolve definitions' p)))"

subsection \<open>getData\<close>

definition data_header_error :: js_error where
  "data_header_error = Error
     ''ERROR: Error occurred when trying to parse data section of file. Header data undefined or incorrect''"

definition data_definitions_error :: js_error where
  "data_definitions_error = Error
     ''ERROR: Error occurred when trying to parse data section of file. Definition data undefined''"

definition data_length_error :: js_error where
  "data_length_error = Error
     ''ERROR: Error occurred when trying to parse data section of file. Data array has different length than field array''"

text \<open>
  \<^verbatim>\<open>definitions[currInd]\<close> used as a key; out of range it is
  \<^verbatim>\<open>undefined\<close>, the key \<^verbatim>\<open>"undefined"\<close>.
\<close>

definition field_key :: "string list \<Rightarrow> nat \<Rightarrow> string" where
  "field_key definitions currInd =
     (if currInd < length definitions then definitions ! currInd else ''undefined'')"

text \<open>The \<^verbatim>\<open>reduce\<close> that builds one data object, from index \<open>currInd\<close> on.\<close>

fun match_fields :: "string list \<Rightarrow> data_object \<Rightarrow> nat \<Rightarrow> string list \<Rightarrow> data_object" where
  "match_fields definitions accumulator currInd [] = accumulator"
| "match_fields definitions accumulator currInd (current # rest) =
     match_fields definitions
       (set_prop accumulator (field_key definitions currInd) current) (Suc currInd) rest"

text \<open>
  The body of the \<^verbatim>\<open>forEach\<close>, on the promise and the objects pushed so far.
  After a \<^verbatim>\<open>reject\<close> the body goes on and pushes the object.
\<close>

definition data_record ::
  "string option \<Rightarrow> string list \<Rightarrow> data_object list promise \<times> data_object list \<Rightarrow> string
     \<Rightarrow> data_object list promise \<times> data_object list" where
  "data_record eof definitions st elem =
     (let dataArr = butlast (split_by elem eof);
          p = (if length dataArr \<noteq> length definitions
               then reject data_length_error (fst st) else fst st);
          dataObj = match_fields definitions [] 0 dataArr
      in (p, snd st @ [dataObj]))"

text \<open>
  With \<^verbatim>\<open>definitions\<close> undefined, \<^verbatim>\<open>definitions.length\<close> throws in the
  first run of the body.
\<close>

definition getData ::
  "string \<Rightarrow> header option \<Rightarrow> string list option \<Rightarrow> data_object list promise" where
  "getData fileStr header definitions =
     (let p = (if header_incomplete header then reject data_header_error Pending
               else if definitions = None then reject data_definitions_error Pending
               else Pending)
      in case exec_data fileStr of
           None \<Rightarrow> throw TypeError p
         | Some dataStr \<Rightarrow>
             (case header of
                None \<Rightarrow> throw TypeError p
              | Some h \<Rightarrow>
                  (let data = map trim (split_by dataStr (get_prop h ''EOR''));
                       validData = filter (\<lambda>current. length current > 0) data
                   in case definitions of
                        None \<Rightarrow> if validData = [] then resolve [] p else throw TypeError p
                      | Some defs \<Rightarrow>
                          (let st = foldl (data_record (get_prop h ''EOF'') defs) (p, []) validData
                           in resolve (snd st) (fst st)))))"

subsection \<open>The error emitter and parseBlmFile\<close>

text \<open>
  What the caller's callback receives: \<open>Failure m e\<close> is the call
  \<^verbatim>\<open>doneCallback(new Error(m + e.message))\<close> of the emitter's listener, and
  \<open>Success data\<close> the call \<^verbatim>\<open>finishCallback(null, data)\<close>.
\<close>

datatype outcome = Failure string js_error | Success "data_object list"

text \<open>
  The listener of the event \<^verbatim>\<open>error\<close>. Without a stored callback it throws, in
  the handler that emitted, and the callback receives nothing.
\<close>

definition errEmitter_error :: "bool \<Rightarrow> string \<Rightarrow> js_error \<Rightarrow> outcome list" where
  "errEmitter_error doneCallback message error =
     (if doneCallback then [Failure message error] else [])"

definition validation_message :: string where
  "validation_message = ''ERROR: Error occurred during file handle vaidation'' @ [CHR 0x0A]"

definition stream_message :: "string \<Rightarrow> string" where
  "stream_message path =
     ''ERROR: Error occurred when trying to read file stream at path: '' @ [CHR 0x22] @ path
       @ [CHR 0x22, CHR 0x0A]"

definition header_message :: string where
  "header_message =
     ''ERROR: Error occurred when trying to parse header section of file'' @ [CHR 0x0A]"

definition definition_message :: string where
  "definition_message =
     ''ERROR: Error occurred when trying to parse definition section of file'' @ [CHR 0x0A]"

definition data_message :: string where
  "data_message =
     ''ERROR: Error occurred when trying to parse data section of file.'' @ [CHR 0x0A]"

text \<open>The \<^verbatim>\<open>catch\<close> handler each stage attaches to its promise.\<close>

definition on_catch :: "string \<Rightarrow> 'a promise \<Rightarrow> outcome list" where
  "on_catch message p =
     (case p of Rejected err \<Rightarrow> errEmitter_error True message err | _ \<Rightarrow> [])"

text \<open>
  The handler of \<^verbatim>\<open>streamInData\<close> builds its message from the file handle in a
  template literal first; if that conversion throws, nothing is emitted.
\<close>

fun template_string :: "js_value \<Rightarrow> string option" where
  "template_string JUndefined = Some ''undefined''"
| "template_string JNull = Some ''null''"
| "template_string (JString s) = Some s"
| "template_string (JOther _ str) = str"

definition on_catch_stream :: "js_value \<Rightarrow> 'a promise \<Rightarrow> outcome list" where
  "on_catch_stream fileHandle p =
     (case p of
        Rejected err \<Rightarrow>
          (case template_string fileHandle of
             None \<Rightarrow> []
           | Some path \<Rightarrow> errEmitter_error True (stream_message path) err)
      | _ \<Rightarrow> [])"

text \<open>
  The async executor of \<^verbatim>\<open>parsePromise\<close>: the state of that promise when the
  executor ends, and what the stages' handlers delivered. An \<^verbatim>\<open>await\<close> of a
  rejected promise throws inside the async executor, which ends it; that exception
  rejects the executor's own promise, not \<^verbatim>\<open>parsePromise\<close>. After the
  \<^verbatim>\<open>reject\<close> for an invalid file handle the executor goes on.
\<close>

definition invalid_handle_error :: js_error where
  "invalid_handle_error = Error ''File handle entered to module is not valid''"

definition parse_executor ::
  "(js_value \<Rightarrow> stream) \<Rightarrow> js_value \<Rightarrow> data_object list promise \<times> outcome list" where
  "parse_executor fs fileHandle =
     (case validateFileHandle fileHandle of
        Fulfilled fileHandleIsValid \<Rightarrow>
          (let parsePromise =
                 (if \<not> fileHandleIsValid then reject invalid_handle_error Pending else Pending)
           in case streamInData fs fileHandle of
                Fulfilled fileStr \<Rightarrow>
                  (case getHeader fileStr of
                     Fulfilled header \<Rightarrow>
                       (case getDefinitions fileStr (Some header) of
                          Fulfilled definitions \<Rightarrow>
                            (case getData fileStr (Some header) (Some definitions) of
                               Fulfilled data \<Rightarrow> (resolve data parsePromise, [])
                             | dataPromise \<Rightarrow> (parsePromise, on_catch data_message dataPromise))
                        | definitionsPromise \<Rightarrow>
                            (parsePromise, on_catch definition_message definitionsPromise))
                   | headerPromise \<Rightarrow> (parsePromise, on_catch header_message headerPromise))
              | streamPromise \<Rightarrow> (parsePromise, on_catch_stream fileHandle streamPromise))
      | validationPromise \<Rightarrow> (Pending, on_catch validation_message validationPromise))"

text \<open>
  The two handlers of \<^verbatim>\<open>parsePromise.then\<close>. The second calls
  \<^verbatim>\<open>errEmitter.emit\<close> with the error object in the place of the event's name: no
  listener is registered under it, and nothing is delivered.
\<close>

definition on_then :: "data_object list promise \<Rightarrow> outcome list" where
  "on_then parsePromise =
     (case parsePromise of
        Fulfilled data \<Rightarrow> [Success data]
      | Rejected err \<Rightarrow> []
      | Pending \<Rightarrow> [])"

text \<open>
  \<^verbatim>\<open>parseBlmFile(fileHandle, finishCallback)\<close>, with the file system it runs on.
  \<open>finishCallback\<close> says whether the argument passes the test of the first
  statement (it is a function). If not, the identifier \<^verbatim>\<open>reject\<close> is unbound
  there and the call ends with a ReferenceError. Otherwise the callback is stored in
  \<^verbatim>\<open>doneCallback\<close>, and the result is the list of the calls it receives.
\<close>

definition parseBlmFile ::
  "(js_value \<Rightarrow> stream) \<Rightarrow> js_value \<Rightarrow> bool \<Rightarrow> js_error + outcome list" where
  "parseBlmFile fs fileHandle finishCallback =
     (if finishCallback then
        (let run = parse_executor fs fileHandle in Inr (snd run @ on_then (fst run)))
      else Inl ReferenceError)"

subsection \<open>Sample files\<close>

text \<open>A file system that holds one file.\<close>

definition single_file :: "string \<Rightarrow> string \<Rightarrow> js_value \<Rightarrow> stream" where
  "single_file path contents fileHandle =
     (case fileHandle of
        JString s \<Rightarrow> if s = path then Chunks contents else ErrorEvent
      | _ \<Rightarrow> Throws TypeError)"

text \<open>
  Header \<^verbatim>\<open>EOF:|\<close>, \<^verbatim>\<open>EOR:;\<close>; definitions
  \<^verbatim>\<open>name|address|price;\<close>; data \<^verbatim>\<open>Alice|123 Rd|100000|;\<close>; one
  line each.
\<close>

definition alice_file :: string where
  "alice_file =
     ''#HEADER#'' @ [CHR 0x0A] @ ''EOF:|'' @ [CHR 0x0A] @ ''EOR:;'' @ [CHR 0x0A] @
     ''#DEFINITION#'' @ [CHR 0x0A] @ ''name|address|price;'' @ [CHR 0x0A] @
     ''#DATA#'' @ [CHR 0x0A] @ ''Alice|123 Rd|100000|;'' @ [CHR 0x0A] @ ''#END#''"

text \<open>The same file with a field separator after the last definition.\<close>

definition alice_file_closed :: string where
  "alice_file_closed =
     ''#HEADER#'' @ [CHR 0x0A] @ ''EOF:|'' @ [CHR 0x0A] @ ''EOR:;'' @ [CHR 0x0A] @
     ''#DEFINITION#'' @ [CHR 0x0A] @ ''name|address|price|;'' @ [CHR 0x0A] @
     ''#DATA#'' @ [CHR 0x0A] @ ''Alice|123 Rd|100000|;'' @ [CHR 0x0A] @ ''#END#''"

text \<open>The same with the definitions \<^verbatim>\<open>a|a|;\<close> and the data \<^verbatim>\<open>1|2|;\<close>.\<close>

definition twice_file :: string where
  "twice_file =
     ''#HEADER#'' @ [CHR 0x0A] @ ''EOF:|'' @ [CHR 0x0A] @ ''EOR:;'' @ [CHR 0x0A] @
     ''#DEFINITION#'' @ [CHR 0x0A] @ ''a|a|;'' @ [CHR 0x0A] @
     ''#DATA#'' @ [CHR 0x0A] @ ''1|2|;'' @ [CHR 0x0A] @ ''#END#''"

text \<open>A header whose second line has no colon.\<close>

definition plain_line_file :: string where
  "plain_line_file =
     ''#HEADER#'' @ [CHR 0x0A] @ ''EOF:|'' @ [CHR 0x0A] @ ''EOR'' @ [CHR 0x0A] @
     ''#DEFINITION#'' @ [CHR 0x0A] @ ''a|;'' @ [CHR 0x0A] @
     ''#DATA#'' @ [CHR 0x0A] @ ''1|;'' @ [CHR 0x0A] @ ''#END#''"

text \<open>A header that declares no delimiter, a definition section, and no data section.\<close>

definition no_data_file :: string where
  "no_data_file =
     ''#HEADER#'' @ [CHR 0x0A] @ ''Version:3'' @ [CHR 0x0A] @
     ''#DEFINITION#'' @ [CHR 0x0A] @ ''a|;'' @ [CHR 0x0A] @ ''#''"

text \<open>Both delimiters and a definition section, and no data section.\<close>

definition cut_file :: string where
  "cut_file =
     ''#HEADER#'' @ [CHR 0x0A] @ ''EOF:|'' @ [CHR 0x0A] @ ''EOR:;'' @ [CHR 0x0A] @
     ''#DEFINITION#'' @ [CHR 0x0A] @ ''a|;'' @ [CHR 0x0A] @ ''#''"

text \<open>Three definitions and a record of two values.\<close>

definition short_record_file :: string where
  "short_record_file =
     ''#HEADER#'' @ [CHR 0x0A] @ ''EOF:|'' @ [CHR 0x0A] @ ''EOR:;'' @ [CHR 0x0A] @
     ''#DEFINITION#'' @ [CHR 0x0A] @ ''name|address|price|;'' @ [CHR 0x0A] @
     ''#DATA#'' @ [CHR 0x0A] @ ''Alice|123 Rd|;'' @ [CHR 0x0A] @ ''#END#''"

text \<open>
  A header whose first line has quotes and a second colon, and whose second line has a
  quoted value.
\<close>

definition quoted_header_file :: string where
  "quoted_header_file =
     ''#HEADER#'' @ [CHR 0x0A] @
     [CHR 0x27] @ ''EOF'' @ [CHR 0x27] @ '' : '' @ [CHR 0x27] @ ''|'' @ [CHR 0x27] @ '' : field''
       @ [CHR 0x0A] @
     ''EOR : '' @ [CHR 0x22] @ '';'' @ [CHR 0x22] @ [CHR 0x0A] @
     ''#DEFINITION#'' @ [CHR 0x0A] @ ''a|;'' @ [CHR 0x0A] @
     ''#DATA#'' @ [CHR 0x0A] @ ''1|;'' @ [CHR 0x0A] @ ''#END#''"

text \<open>Two definitions and a record with no field separator after its last value.\<close>

definition open_record_file :: string where
  "open_record_file =
     ''#HEADER#'' @ [CHR 0x0A] @ ''EOF:|'' @ [CHR 0x0A] @ ''EOR:;'' @ [CHR 0x0A] @
     ''#DEFINITION#'' @ [CHR 0x0A] @ ''x|y|;'' @ [CHR 0x0A] @
     ''#DATA#'' @ [CHR 0x0A] @ ''a|b|c;'' @ [CHR 0x0A] @ ''#END#''"

section \<open>Properties\<close>

subsection \<open>Splitting and trimming\<close>

lemma split_at_not_Nil: "split_at sep acc s \<noteq> []"
  by (induction sep acc s rule: split_at.induct) auto


lemma split_at_char:
  "c \<notin> set x \<Longrightarrow> split_at [c] acc (x @ c # rest) = (acc @ x) # split_at [c] [] rest"
  by (induction x arbitrary: acc) auto

lemma split_at_last_empty:
  "sep \<noteq> [] \<Longrightarrow> last (split_at sep acc s) = [] \<Longrightarrow> (acc = [] \<and> s = []) \<or> suffix sep s"
proof (induction sep acc s rule: split_at.induct)
  case (1 sep acc)
  then show ?case by simp
next
  case (2 sep acc c cs)
  show ?case
  proof (cases "prefix sep (c # cs)")
    case True
    let ?rest = "drop (length sep - 1) cs"
    from True obtain t where t: "c # cs = sep @ t" by (auto simp: prefix_def)
    with "2.prems"(1) have rest: "?rest = t"
      by (cases sep) auto
    from "2.prems" True have "last (split_at sep [] ?rest) = []"
      by (simp add: split_at_not_Nil)
    with "2.IH"(1)[OF True "2.prems"(1)] have "?rest = [] \<or> suffix sep ?rest" by blast
    then have "suffix sep (c # cs)"
    proof
      assume "?rest = []"
      with rest t show ?thesis by simp
    next
      assume "suffix sep ?rest"
      with rest t show ?thesis by (metis suffix_append)
    qed
    then show ?thesis by blast
  next
    case False
    with "2.prems" have "last (split_at sep (acc @ [c]) cs) = []" by simp
    with "2.IH"(2)[OF False "2.prems"(1)] have "suffix sep cs" by simp
    then show ?thesis by (simp add: suffix_Cons)
  qed
qed






lemma colon_not_space: "\<not> is_space CHR '':''"
  by (simp add: is_space_def)

lemma trim_dropWhile: "trim (dropWhile is_space a) = trim a"
  by (simp add: trim_def)

subsection \<open>The path validator\<close>

lemma validateFileHandle_fulfilled: "\<exists>b. validateFileHandle v = Fulfilled b"
  by (cases v)
    (auto simp: validateFileHandle_def resolve_def reject_def throw_def Let_def
      split: option.splits)

lemma validateFileHandle_not_string:
  "(\<And>s. v \<noteq> JString s) \<Longrightarrow> validateFileHandle v = Fulfilled False"
  by (cases v)
    (auto simp: validateFileHandle_def resolve_def reject_def throw_def Let_def
      split: option.splits)

text \<open>
  C6. The validator's promise is always fulfilled with a boolean and never rejected:
  \<^verbatim>\<open>true\<close> for \<^verbatim>\<open>"a.blm"\<close> and \<^verbatim>\<open>"a.BLM"\<close>;
  \<^verbatim>\<open>false\<close> for \<^verbatim>\<open>".blm"\<close>, \<^verbatim>\<open>"a.txt"\<close>, the empty string
  and every value that is not a string. For the latter the first test resolves
  \<^verbatim>\<open>false\<close> before \<^verbatim>\<open>fileHandle.split\<close> can throw.
\<close>

theorem validateFileHandle_table:
  "validateFileHandle (JString ''a.blm'') = Fulfilled True \<and>
   validateFileHandle (JString ''a.BLM'') = Fulfilled True \<and>
   validateFileHandle (JString ''.blm'') = Fulfilled False \<and>
   validateFileHandle (JString ''a.txt'') = Fulfilled False \<and>
   validateFileHandle (JString []) = Fulfilled False \<and>
   (\<forall>v. (\<forall>s. v \<noteq> JString s) \<longrightarrow> validateFileHandle v = Fulfilled False) \<and>
   (\<forall>v. \<exists>b. validateFileHandle v = Fulfilled b)"
proof -
  have a: "validateFileHandle (JString ''a.blm'') = Fulfilled True" by code_simp
  have b: "validateFileHandle (JString ''a.BLM'') = Fulfilled True" by code_simp
  have c: "validateFileHandle (JString ''.blm'') = Fulfilled False" by code_simp
  have d: "validateFileHandle (JString ''a.txt'') = Fulfilled False" by code_simp
  have e: "validateFileHandle (JString []) = Fulfilled False" by code_simp
  show ?thesis
    using a b c d e validateFileHandle_fulfilled validateFileHandle_not_string by blast
qed

theorem validateFileHandle_table_witness:
  "validateFileHandle (JOther (Some [''a'', ''blm'']) (Some ''a.blm'')) = Fulfilled False \<and>
   validateFileHandle JUndefined = Fulfilled False"
  using validateFileHandle_table by simp

subsection \<open>Header lines\<close>


lemma getHeader_found:
  "exec_section ''#HEADER#'' fileStr = Some headerStr \<Longrightarrow>
   getHeader fileStr = Fulfilled (foldl header_line [] (split_js headerStr [CHR 0x0A]))"
  by (simp add: getHeader_def resolve_def)

lemma getHeader_missing:
  "exec_section ''#HEADER#'' fileStr = None \<Longrightarrow> getHeader fileStr = Rejected TypeError"
  by (simp add: getHeader_def throw_def reject_def)




lemma header_line_two_colons:
  assumes "CHR '':'' \<notin> set a" "CHR '':'' \<notin> set b"
  shows "header_line accumulator (a @ '':'' @ b @ '':'' @ c) =
           set_prop accumulator (unquote (trim a)) (Some (unquote (trim b)))"
proof -
  let ?line = "a @ CHR '':'' # b @ CHR '':'' # c"
  let ?a = "dropWhile is_space a"
  let ?c = "rev (dropWhile is_space (rev c))"
  have t: "trim ?line = ?a @ CHR '':'' # b @ CHR '':'' # ?c"
    by (simp add: trim_def dropWhile_append3 colon_not_space)
  have a: "CHR '':'' \<notin> set ?a" using assms(1) set_dropWhileD by fastforce
  have "split_at '':'' [] (?a @ CHR '':'' # b @ CHR '':'' # ?c) =
      ?a # split_at '':'' [] (b @ CHR '':'' # ?c)"
    using split_at_char[OF a, of "[]"] by simp
  also have "split_at '':'' [] (b @ CHR '':'' # ?c) = b # split_at '':'' [] ?c"
    using split_at_char[OF assms(2), of "[]"] by simp
  finally have s: "split_js (trim ?line) '':'' = ?a # b # split_at '':'' [] ?c"
    by (simp add: split_js_def t)
  have n: "trim ?line \<noteq> []" by (simp add: t)
  show ?thesis
    unfolding header_line_def using n by (simp add: s trim_dropWhile)
qed

lemma map_of_assign: "map_of (assign k v obj) = (map_of obj)(k \<mapsto> v)"
  by (induction obj) auto

lemma map_of_set_prop_same:
  "k \<noteq> ''__proto__'' \<Longrightarrow> map_of (set_prop obj k v) k = Some v"
  by (simp add: set_prop_def map_of_assign)

lemma map_of_set_prop_other:
  "k' \<noteq> k \<Longrightarrow> map_of (set_prop obj k' v) k = map_of obj k"
  by (simp add: set_prop_def map_of_assign)

lemma header_line_key:
  assumes "trim l \<noteq> []"
  shows "\<exists>v. header_line acc l =
           set_prop acc (unquote (trim (hd (split_js (trim l) '':'')))) v"
proof -
  obtain x xs where s: "split_js (trim l) '':'' = x # xs"
    using split_at_not_Nil[of "'':''" "[]" "trim l"]
    by (cases "split_js (trim l) '':''") (simp_all add: split_js_def)
  show ?thesis using assms by (cases xs) (auto simp: header_line_def s)
qed

lemma foldl_header_line_other:
  assumes "\<forall>l \<in> set ls. trim l = [] \<or> unquote (trim (hd (split_js (trim l) '':''))) \<noteq> k"
  shows "map_of (foldl header_line acc ls) k = map_of acc k"
  using assms
proof (induction ls arbitrary: acc)
  case Nil
  then show ?case by simp
next
  case (Cons l ls)
  have "map_of (header_line acc l) k = map_of acc k"
  proof (cases "trim l = []")
    case True
    then show ?thesis by (simp add: header_line_def)
  next
    case False
    then obtain v where
      "header_line acc l = set_prop acc (unquote (trim (hd (split_js (trim l) '':'')))) v"
      using header_line_key by blast
    moreover from Cons.prems False
    have "unquote (trim (hd (split_js (trim l) '':''))) \<noteq> k" by simp
    ultimately show ?thesis by (simp add: map_of_set_prop_other)
  qed
  with Cons show ?case by simp
qed

text \<open>
  C10. When the header section has a line \<open>a:b:c\<close> with no colon in \<open>a\<close> and
  \<open>b\<close>, header extraction sets the property \<open>a\<close> (trimmed, unquoted) to
  \<open>b\<close> (trimmed, unquoted) at that line, whatever \<open>c\<close> is, and goes on with
  the lines after it. If no later line assigns the same property, the extracted header
  holds that value for it: the text after the second colon is in no property.
\<close>

theorem getHeader_second_colon:
  assumes "exec_section ''#HEADER#'' fileStr = Some headerStr"
    and "split_js headerStr [CHR 0x0A] = before @ [a @ '':'' @ b @ '':'' @ c] @ after"
    and "CHR '':'' \<notin> set a" and "CHR '':'' \<notin> set b"
  shows "getHeader fileStr =
           Fulfilled (foldl header_line
             (set_prop (foldl header_line [] before) (unquote (trim a)) (Some (unquote (trim b))))
             after) \<and>
         (unquote (trim a) \<noteq> ''__proto__'' \<and>
          (\<forall>l \<in> set after. trim l = [] \<or>
             unquote (trim (hd (split_js (trim l) '':''))) \<noteq> unquote (trim a)) \<longrightarrow>
          (\<exists>headerData. getHeader fileStr = Fulfilled headerData \<and>
             map_of headerData (unquote (trim a)) = Some (Some (unquote (trim b)))))"
proof -
  let ?k = "unquote (trim a)"
  let ?v = "Some (unquote (trim b))"
  let ?mid = "set_prop (foldl header_line [] before) ?k ?v"
  have l: "header_line (foldl header_line [] before) (a @ '':'' @ b @ '':'' @ c) = ?mid"
    using assms(3,4) by (rule header_line_two_colons)
  have "getHeader fileStr = Fulfilled (foldl header_line [] (split_js headerStr [CHR 0x0A]))"
    using assms(1) by (rule getHeader_found)
  also have "foldl header_line [] (split_js headerStr [CHR 0x0A]) = foldl header_line ?mid after"
    unfolding assms(2) foldl_append using l by simp
  finally have g: "getHeader fileStr = Fulfilled (foldl header_line ?mid after)" .
  have "map_of (foldl header_line ?mid after) ?k = Some ?v"
    if "?k \<noteq> ''__proto__''"
      and "\<forall>l \<in> set after. trim l = [] \<or> unquote (trim (hd (split_js (trim l) '':''))) \<noteq> ?k"
  proof -
    have "map_of (foldl header_line ?mid after) ?k = map_of ?mid ?k"
      using that(2) by (rule foldl_header_line_other)
    also have "\<dots> = Some ?v" using that(1) by (rule map_of_set_prop_same)
    finally show ?thesis .
  qed
  with g show ?thesis by blast
qed

theorem getHeader_second_colon_witness:
  "exec_section ''#HEADER#'' quoted_header_file =
     Some ([CHR 0x0A] @ ([CHR 0x27] @ ''EOF'' @ [CHR 0x27] @ '' '') @ '':'' @
           ('' '' @ [CHR 0x27] @ ''|'' @ [CHR 0x27] @ '' '') @ '':'' @ '' field'' @ [CHR 0x0A] @
           ''EOR : '' @ [CHR 0x22] @ '';'' @ [CHR 0x22] @ [CHR 0x0A]) \<and>
   CHR '':'' \<notin> set ([CHR 0x27] @ ''EOF'' @ [CHR 0x27] @ '' '') \<and>
   CHR '':'' \<notin> set ('' '' @ [CHR 0x27] @ ''|'' @ [CHR 0x27] @ '' '') \<and>
   unquote (trim ([CHR 0x27] @ ''EOF'' @ [CHR 0x27] @ '' '')) = ''EOF'' \<and>
   unquote (trim ('' '' @ [CHR 0x27] @ ''|'' @ [CHR 0x27] @ '' '')) = ''|'' \<and>
   getHeader quoted_header_file = Fulfilled [(''EOF'', Some ''|''), (''EOR'', Some '';'')] \<and>
   (\<exists>headerData. getHeader quoted_header_file = Fulfilled headerData \<and>
      map_of headerData ''EOF'' = Some (Some ''|''))"
proof -
  let ?a = "[CHR 0x27] @ ''EOF'' @ [CHR 0x27] @ '' ''"
  let ?b = "'' '' @ [CHR 0x27] @ ''|'' @ [CHR 0x27] @ '' ''"
  let ?c = "'' field''"
  let ?l2 = "''EOR : '' @ [CHR 0x22] @ '';'' @ [CHR 0x22]"
  let ?hs = "[CHR 0x0A] @ ?a @ '':'' @ ?b @ '':'' @ ?c @ [CHR 0x0A] @ ?l2 @ [CHR 0x0A]"
  have h1: "exec_section ''#HEADER#'' quoted_header_file = Some ?hs" by code_simp
  have h2: "split_js ?hs [CHR 0x0A] = [[]] @ [?a @ '':'' @ ?b @ '':'' @ ?c] @ [?l2, []]"
    by code_simp
  have h3: "CHR '':'' \<notin> set ?a" by simp
  have h4: "CHR '':'' \<notin> set ?b" by simp
  have k: "unquote (trim ?a) = ''EOF''" by code_simp
  have v: "unquote (trim ?b) = ''|''" by code_simp
  have h5: "unquote (trim ?a) \<noteq> ''__proto__''" by (simp only: k) simp
  have k2: "unquote (trim (hd (split_js (trim ?l2) '':''))) = ''EOR''" by code_simp
  have t: "trim [] = []" by code_simp
  have h6: "\<forall>l \<in> set [?l2, []]. trim l = [] \<or>
      unquote (trim (hd (split_js (trim l) '':''))) \<noteq> unquote (trim ?a)"
    by code_simp
  have e: "foldl header_line
        (set_prop (foldl header_line [] [[]]) ''EOF'' (Some ''|'')) [?l2, []] =
      [(''EOF'', Some ''|''), (''EOR'', Some '';'')]" by code_simp
  from getHeader_second_colon[OF h1 h2 h3 h4] h5 h6
  have g: "getHeader quoted_header_file =
           Fulfilled (foldl header_line
             (set_prop (foldl header_line [] [[]]) (unquote (trim ?a)) (Some (unquote (trim ?b))))
             [?l2, []])"
    and m: "\<exists>headerData. getHeader quoted_header_file = Fulfilled headerData \<and>
             map_of headerData (unquote (trim ?a)) = Some (Some (unquote (trim ?b)))"
    by blast+
  from g have g': "getHeader quoted_header_file = Fulfilled [(''EOF'', Some ''|''), (''EOR'', Some '';'')]"
    by (simp only: k v e)
  from m have m': "\<exists>headerData. getHeader quoted_header_file = Fulfilled headerData \<and>
      map_of headerData ''EOF'' = Some (Some ''|'')"
    by (simp only: k v)
  from h1 h3 h4 k v g' m' show ?thesis by simp
qed

subsection \<open>Data records\<close>

lemma split_js_last_not_empty:
  assumes "elem \<noteq> []" "eof \<noteq> []" "\<not> suffix eof elem"
  shows "split_js elem eof \<noteq> [] \<and> last (split_js elem eof) \<noteq> []"
  using assms split_at_last_empty[of eof "[]" elem] split_at_not_Nil[of eof "[]" elem]
  by (auto simp: split_js_def)

lemma reject_reject: "reject e (reject e p) = reject e p"
  by (cases p) (simp_all add: reject_def)

lemma fst_data_record:
  "fst (data_record eof defs st elem) =
     (if length (butlast (split_by elem eof)) \<noteq> length defs
      then reject data_length_error (fst st) else fst st)"
  by (simp add: data_record_def Let_def)

lemma snd_data_record:
  "snd (data_record eof defs st elem) =
     snd st @ [match_fields defs [] 0 (butlast (split_by elem eof))]"
  by (simp add: data_record_def Let_def)

lemma foldl_data_record_snd:
  "snd (foldl (data_record eof defs) st xs) =
     snd st @ map (\<lambda>elem. match_fields defs [] 0 (butlast (split_by elem eof))) xs"
  by (induction xs arbitrary: st) (simp_all add: snd_data_record)

lemma foldl_data_record_fst:
  "fst (foldl (data_record eof defs) st xs) =
     (if \<exists>elem \<in> set xs. length (butlast (split_by elem eof)) \<noteq> length defs
      then reject data_length_error (fst st) else fst st)"
  by (induction xs arbitrary: st) (simp_all add: fst_data_record reject_reject)

lemma getData_complete:
  assumes "\<not> header_incomplete (Some h)" "exec_data fileStr = Some dataStr"
  shows "getData fileStr (Some h) (Some defs) =
     (if \<exists>elem \<in> set (filter (\<lambda>current. length current > 0)
                           (map trim (split_by dataStr (get_prop h ''EOR'')))).
           length (butlast (split_by elem (get_prop h ''EOF''))) \<noteq> length defs
      then Rejected data_length_error
      else Fulfilled (map (\<lambda>elem. match_fields defs [] 0 (butlast (split_by elem (get_prop h ''EOF''))))
             (filter (\<lambda>current. length current > 0)
                (map trim (split_by dataStr (get_prop h ''EOR''))))))"
  using assms
  by (simp add: getData_def Let_def foldl_data_record_fst foldl_data_record_snd
      resolve_def reject_def)

lemma getData_no_section:
  "exec_data fileStr = None \<Longrightarrow> \<not> header_incomplete header \<Longrightarrow>
   getData fileStr header (Some defs) = Rejected TypeError"
  by (simp add: getData_def throw_def reject_def)

lemma getData_incomplete:
  "header_incomplete header \<Longrightarrow> getData fileStr header definitions = Rejected data_header_error"
  by (auto simp: getData_def Let_def throw_def reject_def resolve_def
      foldl_data_record_fst split: option.splits)

text \<open>
  C3. With both delimiters declared and the data section found, if some record
  candidate that is not empty has a value list (the split on the field separator
  without its last piece) whose length differs from the number of definitions, then
  \<^verbatim>\<open>getData\<close> is rejected with the length error: the later \<^verbatim>\<open>resolve\<close> of
  the objects built so far has no effect, and no list of records is returned.
\<close>

theorem getData_length_mismatch:
  assumes "get_prop h ''EOF'' = Some eof" and "get_prop h ''EOR'' = Some eor"
    and "exec_data fileStr = Some dataStr"
    and "elem \<in> set (filter (\<lambda>current. length current > 0) (map trim (split_js dataStr eor)))"
    and "length (butlast (split_js elem eof)) \<noteq> length defs"
  shows "getData fileStr (Some h) (Some defs) = Rejected data_length_error"
proof -
  have c: "\<not> header_incomplete (Some h)" using assms(1,2) by (simp add: header_incomplete_def)
  have e: "split_by dataStr (get_prop h ''EOR'') = split_js dataStr eor"
    "split_by elem (get_prop h ''EOF'') = split_js elem eof"
    using assms(1,2) by (simp_all add: split_by_def)
  show ?thesis
    unfolding getData_complete[OF c assms(3)] using assms(4,5) e by auto
qed

theorem getData_length_mismatch_witness:
  "get_prop [(''EOF'', Some ''|''), (''EOR'', Some '';'')] ''EOF'' = Some ''|'' \<and>
   get_prop [(''EOF'', Some ''|''), (''EOR'', Some '';'')] ''EOR'' = Some '';'' \<and>
   exec_data short_record_file = Some (CHR 0x0A # ''Alice|123 Rd|;'' @ [CHR 0x0A]) \<and>
   ''Alice|123 Rd|'' \<in> set (filter (\<lambda>current. length current > 0)
      (map trim (split_js (CHR 0x0A # ''Alice|123 Rd|;'' @ [CHR 0x0A]) '';''))) \<and>
   length (butlast (split_js ''Alice|123 Rd|'' ''|'')) = 2 \<and>
   getData short_record_file (Some [(''EOF'', Some ''|''), (''EOR'', Some '';'')])
     (Some [''name'', ''address'', ''price'']) = Rejected data_length_error"
proof -
  let ?h = "[(''EOF'', Some ''|''), (''EOR'', Some '';'')]"
  let ?d = "CHR 0x0A # ''Alice|123 Rd|;'' @ [CHR 0x0A]"
  have h1: "get_prop ?h ''EOF'' = Some ''|''" by code_simp
  have h2: "get_prop ?h ''EOR'' = Some '';''" by code_simp
  have h3: "exec_data short_record_file = Some ?d" by code_simp
  have h4: "''Alice|123 Rd|'' \<in> set (filter (\<lambda>current. length current > 0)
      (map trim (split_js ?d '';'')))" by code_simp
  have h5: "length (butlast (split_js ''Alice|123 Rd|'' ''|'')) = 2" by code_simp
  have h6: "length (butlast (split_js ''Alice|123 Rd|'' ''|'')) \<noteq>
     length [''name'', ''address'', ''price'']" by (simp only: h5) simp
  from getData_length_mismatch[OF h1 h2 h3 h4 h6] h1 h2 h3 h4 h5 show ?thesis by blast
qed

text \<open>
  C9. With both delimiters declared and the data section found, data extraction matches
  against the definitions, and applies the length check to, the pieces of each record
  candidate's split on the field separator without the last one. For a candidate that
  does not end with the field separator, the dropped piece is its final value, which is
  not empty; no error reports it.
\<close>

theorem getData_drops_last:
  assumes "get_prop h ''EOF'' = Some eof" and "get_prop h ''EOR'' = Some eor"
    and "exec_data fileStr = Some dataStr"
  shows "getData fileStr (Some h) (Some defs) =
     (if \<exists>elem \<in> set (filter (\<lambda>current. length current > 0) (map trim (split_js dataStr eor))).
           length (butlast (split_js elem eof)) \<noteq> length defs
      then Rejected data_length_error
      else Fulfilled (map (\<lambda>elem. match_fields defs [] 0 (butlast (split_js elem eof)))
             (filter (\<lambda>current. length current > 0) (map trim (split_js dataStr eor))))) \<and>
   (\<forall>elem \<in> set (filter (\<lambda>current. length current > 0) (map trim (split_js dataStr eor))).
      eof \<noteq> [] \<and> \<not> suffix eof elem \<longrightarrow>
      (\<exists>values final. split_js elem eof = values @ [final] \<and> final \<noteq> [] \<and>
         butlast (split_js elem eof) = values))"
proof -
  have c: "\<not> header_incomplete (Some h)" using assms(1,2) by (simp add: header_incomplete_def)
  have e: "split_by dataStr (get_prop h ''EOR'') = split_js dataStr eor"
    "\<And>elem. split_by elem (get_prop h ''EOF'') = split_js elem eof"
    using assms(1,2) by (simp_all add: split_by_def)
  have 1: "getData fileStr (Some h) (Some defs) =
     (if \<exists>elem \<in> set (filter (\<lambda>current. length current > 0) (map trim (split_js dataStr eor))).
           length (butlast (split_js elem eof)) \<noteq> length defs
      then Rejected data_length_error
      else Fulfilled (map (\<lambda>elem. match_fields defs [] 0 (butlast (split_js elem eof)))
             (filter (\<lambda>current. length current > 0) (map trim (split_js dataStr eor)))))"
    using getData_complete[OF c assms(3), of defs] by (simp only: e)
  have 2: "\<exists>values final. split_js elem eof = values @ [final] \<and> final \<noteq> [] \<and>
         butlast (split_js elem eof) = values"
    if "elem \<in> set (filter (\<lambda>current. length current > 0) (map trim (split_js dataStr eor)))"
      "eof \<noteq> []" "\<not> suffix eof elem" for elem
  proof -
    from that(1) have "elem \<noteq> []" by auto
    from split_js_last_not_empty[OF this that(2,3)]
    have "split_js elem eof = butlast (split_js elem eof) @ [last (split_js elem eof)]"
      and "last (split_js elem eof) \<noteq> []" by simp_all
    then show ?thesis by metis
  qed
  from 1 2 show ?thesis by blast
qed

theorem getData_drops_last_witness:
  "get_prop [(''EOF'', Some ''|''), (''EOR'', Some '';'')] ''EOF'' = Some ''|'' \<and>
   get_prop [(''EOF'', Some ''|''), (''EOR'', Some '';'')] ''EOR'' = Some '';'' \<and>
   exec_data open_record_file = Some (CHR 0x0A # ''a|b|c;'' @ [CHR 0x0A]) \<and>
   filter (\<lambda>current. length current > 0)
     (map trim (split_js (CHR 0x0A # ''a|b|c;'' @ [CHR 0x0A]) '';'')) = [''a|b|c''] \<and>
   \<not> suffix ''|'' ''a|b|c'' \<and>
   split_js ''a|b|c'' ''|'' = [''a'', ''b''] @ [''c''] \<and>
   getData open_record_file (Some [(''EOF'', Some ''|''), (''EOR'', Some '';'')])
     (Some [''x'', ''y'']) = Fulfilled [[(''x'', ''a''), (''y'', ''b'')]] \<and>
   getData open_record_file (Some [(''EOF'', Some ''|''), (''EOR'', Some '';'')])
     (Some [''x'', ''y'', ''z'']) = Rejected data_length_error"
proof -
  let ?h = "[(''EOF'', Some ''|''), (''EOR'', Some '';'')]"
  let ?d = "CHR 0x0A # ''a|b|c;'' @ [CHR 0x0A]"
  have h1: "get_prop ?h ''EOF'' = Some ''|''" by code_simp
  have h2: "get_prop ?h ''EOR'' = Some '';''" by code_simp
  have h3: "exec_data open_record_file = Some ?d" by code_simp
  have f: "filter (\<lambda>current. length current > 0) (map trim (split_js ?d '';'')) = [''a|b|c'']"
    by code_simp
  have n: "\<not> suffix ''|'' ''a|b|c''" by (simp add: suffix_def)
  have s: "split_js ''a|b|c'' ''|'' = [''a'', ''b''] @ [''c'']" by code_simp
  from getData_drops_last[OF h1 h2 h3, of "[''x'', ''y'']"]
  have "getData open_record_file (Some ?h) (Some [''x'', ''y'']) =
     (if \<exists>elem \<in> set (filter (\<lambda>current. length current > 0) (map trim (split_js ?d '';''))).
           length (butlast (split_js elem ''|'')) \<noteq> length [''x'', ''y'']
      then Rejected data_length_error
      else Fulfilled (map (\<lambda>elem. match_fields [''x'', ''y''] [] 0 (butlast (split_js elem ''|'')))
             (filter (\<lambda>current. length current > 0) (map trim (split_js ?d '';'')))))"
    by (rule conjunct1)
  also have "\<dots> = Fulfilled [[(''x'', ''a''), (''y'', ''b'')]]" by code_simp
  finally have g2: "getData open_record_file (Some ?h) (Some [''x'', ''y'']) =
      Fulfilled [[(''x'', ''a''), (''y'', ''b'')]]" .
  from getData_drops_last[OF h1 h2 h3, of "[''x'', ''y'', ''z'']"]
  have "getData open_record_file (Some ?h) (Some [''x'', ''y'', ''z'']) =
     (if \<exists>elem \<in> set (filter (\<lambda>current. length current > 0) (map trim (split_js ?d '';''))).
           length (butlast (split_js elem ''|'')) \<noteq> length [''x'', ''y'', ''z'']
      then Rejected data_length_error
      else Fulfilled (map (\<lambda>elem. match_fields [''x'', ''y'', ''z''] [] 0 (butlast (split_js elem ''|'')))
             (filter (\<lambda>current. length current > 0) (map trim (split_js ?d '';'')))))"
    by (rule conjunct1)
  also have "\<dots> = Rejected data_length_error" by code_simp
  finally have g3: "getData open_record_file (Some ?h) (Some [''x'', ''y'', ''z'']) =
      Rejected data_length_error" .
  from h1 h2 h3 f n s g2 g3 show ?thesis by (intro conjI)
qed

subsection \<open>Stages and the callback\<close>

lemma getDefinitions_incomplete:
  "header_incomplete header \<Longrightarrow>
   getDefinitions fileStr header = Rejected definitions_header_error"
  by (auto simp: getDefinitions_def Let_def throw_def reject_def resolve_def
      split: option.splits)

lemma getDefinitions_no_section:
  "exec_section ''#DEFINITION#'' fileStr = None \<Longrightarrow> \<not> header_incomplete header \<Longrightarrow>
   getDefinitions fileStr header = Rejected TypeError"
  by (simp add: getDefinitions_def throw_def reject_def)

text \<open>What the callback receives when a stage rejects.\<close>

lemma parseBlmFile_header_rejected:
  assumes "fs fileHandle = Chunks fileStr" "getHeader fileStr = Rejected e"
  shows "parseBlmFile fs fileHandle True = Inr [Failure header_message e]"
proof -
  obtain ok where "validateFileHandle fileHandle = Fulfilled ok"
    using validateFileHandle_fulfilled by blast
  then show ?thesis using assms
    by (cases ok)
      (simp_all add: parseBlmFile_def parse_executor_def streamInData_def resolve_def
        reject_def on_catch_def errEmitter_error_def on_then_def)
qed

lemma parseBlmFile_definitions_rejected:
  assumes "fs fileHandle = Chunks fileStr" "getHeader fileStr = Fulfilled header"
    "getDefinitions fileStr (Some header) = Rejected e"
  shows "parseBlmFile fs fileHandle True = Inr [Failure definition_message e]"
proof -
  obtain ok where "validateFileHandle fileHandle = Fulfilled ok"
    using validateFileHandle_fulfilled by blast
  then show ?thesis using assms
    by (cases ok)
      (simp_all add: parseBlmFile_def parse_executor_def streamInData_def resolve_def
        reject_def on_catch_def errEmitter_error_def on_then_def)
qed

lemma parseBlmFile_data_rejected:
  assumes "fs fileHandle = Chunks fileStr" "getHeader fileStr = Fulfilled header"
    "getDefinitions fileStr (Some header) = Fulfilled definitions"
    "getData fileStr (Some header) (Some definitions) = Rejected e"
  shows "parseBlmFile fs fileHandle True = Inr [Failure data_message e]"
proof -
  obtain ok where "validateFileHandle fileHandle = Fulfilled ok"
    using validateFileHandle_fulfilled by blast
  then show ?thesis using assms
    by (cases ok)
      (simp_all add: parseBlmFile_def parse_executor_def streamInData_def resolve_def
        reject_def on_catch_def errEmitter_error_def on_then_def)
qed

text \<open>
  C5. When the header is extracted and \<^verbatim>\<open>EOF\<close> or \<^verbatim>\<open>EOR\<close> is
  undefined in it, \<^verbatim>\<open>getDefinitions\<close> is rejected by its first statement, before
  the definition section is looked for, and the callback receives that one error, of
  the definition stage, whatever the rest of the file holds; \<^verbatim>\<open>getData\<close> is not
  called.
\<close>

theorem parseBlmFile_missing_delimiter:
  assumes "fs fileHandle = Chunks fileStr" and "getHeader fileStr = Fulfilled header"
    and "get_prop header ''EOF'' = None \<or> get_prop header ''EOR'' = None"
  shows "getDefinitions fileStr (Some header) = Rejected definitions_header_error \<and>
         parseBlmFile fs fileHandle True =
           Inr [Failure definition_message definitions_header_error]"
proof -
  have "header_incomplete (Some header)" using assms(3) by (simp add: header_incomplete_def)
  then have "getDefinitions fileStr (Some header) = Rejected definitions_header_error"
    by (rule getDefinitions_incomplete)
  then show ?thesis
    using parseBlmFile_definitions_rejected[of fs fileHandle fileStr header] assms(1,2)
    by simp
qed

theorem parseBlmFile_missing_delimiter_witness:
  "single_file ''a.blm'' plain_line_file (JString ''a.blm'') = Chunks plain_line_file \<and>
   getHeader plain_line_file = Fulfilled [(''EOF'', Some ''|''), (''EOR'', None)] \<and>
   get_prop [(''EOF'', Some ''|''), (''EOR'', None)] ''EOR'' = None \<and>
   exec_section ''#DEFINITION#'' plain_line_file = Some (CHR 0x0A # ''a|;'' @ [CHR 0x0A]) \<and>
   parseBlmFile (single_file ''a.blm'' plain_line_file) (JString ''a.blm'') True =
     Inr [Failure definition_message definitions_header_error]"
proof -
  have h1: "single_file ''a.blm'' plain_line_file (JString ''a.blm'') = Chunks plain_line_file"
    by (simp add: single_file_def)
  have h2: "getHeader plain_line_file = Fulfilled [(''EOF'', Some ''|''), (''EOR'', None)]"
    by code_simp
  have h3: "get_prop [(''EOF'', Some ''|''), (''EOR'', None)] ''EOR'' = None" by code_simp
  have h4: "exec_section ''#DEFINITION#'' plain_line_file = Some (CHR 0x0A # ''a|;'' @ [CHR 0x0A])"
    by code_simp
  from parseBlmFile_missing_delimiter[of "single_file ''a.blm'' plain_line_file"
      "JString ''a.blm''" plain_line_file "[(''EOF'', Some ''|''), (''EOR'', None)]"]
    h3 h1 h2 h4
  show ?thesis by blast
qed

lemma getDefinitions_found:
  "\<not> header_incomplete (Some h) \<Longrightarrow> exec_section ''#DEFINITION#'' fileStr = Some ds \<Longrightarrow>
   \<exists>defs. getDefinitions fileStr (Some h) = Fulfilled defs"
  by (simp add: getDefinitions_def Let_def resolve_def)

text \<open>
  C4, as the code has it. For a text that lacks one of the three marker pairs the
  callback receives exactly one error and no records. The error is the TypeError of
  the first stage whose section is missing, under that stage's message, provided the
  stages before it succeed: the header stage when the header pair is missing; the
  definition stage when the header declares both delimiters and the definition pair is
  missing; the data stage when the definitions are extracted and the data pair is
  missing.
\<close>

theorem missing_section_failure:
  assumes "fs fileHandle = Chunks fileStr"
    and "exec_section ''#HEADER#'' fileStr = None \<or>
         exec_section ''#DEFINITION#'' fileStr = None \<or> exec_data fileStr = None"
  shows "\<exists>message cause.
     parseBlmFile fs fileHandle True = Inr [Failure message cause] \<and>
     (exec_section ''#HEADER#'' fileStr = None \<longrightarrow>
        message = header_message \<and> cause = TypeError) \<and>
     (\<forall>header. getHeader fileStr = Fulfilled header \<and> \<not> header_incomplete (Some header) \<and>
        exec_section ''#DEFINITION#'' fileStr = None \<longrightarrow>
        message = definition_message \<and> cause = TypeError) \<and>
     (\<forall>header definitions. getHeader fileStr = Fulfilled header \<and>
        getDefinitions fileStr (Some header) = Fulfilled definitions \<and>
        exec_data fileStr = None \<longrightarrow>
        message = data_message \<and> cause = TypeError)"
proof (cases "exec_section ''#HEADER#'' fileStr")
  case None
  then have h: "getHeader fileStr = Rejected TypeError" by (rule getHeader_missing)
  have "parseBlmFile fs fileHandle True = Inr [Failure header_message TypeError]"
    using parseBlmFile_header_rejected[of fs fileHandle fileStr TypeError] assms(1) h by simp
  then show ?thesis using h by simp
next
  case (Some headerStr)
  then obtain header where h: "getHeader fileStr = Fulfilled header"
    using getHeader_found by blast
  show ?thesis
  proof (cases "header_incomplete (Some header)")
    case True
    then have d: "getDefinitions fileStr (Some header) = Rejected definitions_header_error"
      by (rule getDefinitions_incomplete)
    have "parseBlmFile fs fileHandle True =
        Inr [Failure definition_message definitions_header_error]"
      using parseBlmFile_definitions_rejected[of fs fileHandle fileStr header] assms(1) h d
      by simp
    then show ?thesis using Some h d True by auto
  next
    case complete: False
    show ?thesis
    proof (cases "exec_section ''#DEFINITION#'' fileStr")
      case None
      then have d: "getDefinitions fileStr (Some header) = Rejected TypeError"
        using complete by (rule getDefinitions_no_section)
      have "parseBlmFile fs fileHandle True = Inr [Failure definition_message TypeError]"
        using parseBlmFile_definitions_rejected[of fs fileHandle fileStr header] assms(1) h d
        by simp
      then show ?thesis using Some h d by auto
    next
      case found: (Some ds)
      then obtain defs where d: "getDefinitions fileStr (Some header) = Fulfilled defs"
        using getDefinitions_found[OF complete] by blast
      from assms(2) Some found have n: "exec_data fileStr = None" by simp
      then have g: "getData fileStr (Some header) (Some defs) = Rejected TypeError"
        using complete by (rule getData_no_section)
      have "parseBlmFile fs fileHandle True = Inr [Failure data_message TypeError]"
        using parseBlmFile_data_rejected[of fs fileHandle fileStr header defs] assms(1) h d g
        by simp
      then show ?thesis using Some h d found by auto
    qed
  qed
qed

theorem missing_section_failure_witness:
  "single_file ''a.blm'' cut_file (JString ''a.blm'') = Chunks cut_file \<and>
   exec_data cut_file = None \<and>
   getHeader cut_file = Fulfilled [(''EOF'', Some ''|''), (''EOR'', Some '';'')] \<and>
   getDefinitions cut_file (Some [(''EOF'', Some ''|''), (''EOR'', Some '';'')]) =
     Fulfilled [''a''] \<and>
   parseBlmFile (single_file ''a.blm'' cut_file) (JString ''a.blm'') True =
     Inr [Failure data_message TypeError]"
proof -
  let ?h = "[(''EOF'', Some ''|''), (''EOR'', Some '';'')]"
  have h1: "single_file ''a.blm'' cut_file (JString ''a.blm'') = Chunks cut_file"
    by (simp add: single_file_def)
  have h2: "exec_data cut_file = None" by code_simp
  have h3: "getHeader cut_file = Fulfilled ?h" by code_simp
  have h4: "getDefinitions cut_file (Some ?h) = Fulfilled [''a'']" by code_simp
  from missing_section_failure[of "single_file ''a.blm'' cut_file" "JString ''a.blm''" cut_file]
    h1 h2
  obtain message cause where
    p: "parseBlmFile (single_file ''a.blm'' cut_file) (JString ''a.blm'') True =
          Inr [Failure message cause]"
    and m: "\<forall>header definitions. getHeader cut_file = Fulfilled header \<and>
        getDefinitions cut_file (Some header) = Fulfilled definitions \<and>
        exec_data cut_file = None \<longrightarrow>
        message = data_message \<and> cause = TypeError"
    by blast
  from m h2 h3 h4 have "message = data_message \<and> cause = TypeError" by blast
  with p h1 h2 h3 h4 show ?thesis by simp
qed

text \<open>
  A text with header and definition sections and no data section, whose header declares
  no delimiter: the error the callback receives is the definition stage's header check,
  not an error of the data section.
\<close>

theorem no_data_file_counterexample:
  "exec_section ''#HEADER#'' no_data_file = Some (CHR 0x0A # ''Version:3'' @ [CHR 0x0A]) \<and>
   exec_section ''#DEFINITION#'' no_data_file = Some (CHR 0x0A # ''a|;'' @ [CHR 0x0A]) \<and>
   exec_data no_data_file = None \<and>
   parseBlmFile (single_file ''a.blm'' no_data_file) (JString ''a.blm'') True =
     Inr [Failure definition_message definitions_header_error] \<and>
   parseBlmFile (single_file ''a.blm'' no_data_file) (JString ''a.blm'') True \<noteq>
     Inr [Failure data_message TypeError]"
  by code_simp

subsection \<open>Records of a successful parse\<close>

lemma map_fst_assign:
  "map fst (assign k v obj) = (if k \<in> set (map fst obj) then map fst obj else map fst obj @ [k])"
  by (induction obj) auto

lemma keys_assign: "fst ` set (assign k v obj) = insert k (fst ` set obj)"
  by (induction obj) auto

lemma keys_set_prop:
  "fst ` set (set_prop obj k v) = fst ` set obj \<union> ({k} - {''__proto__''})"
  by (simp add: set_prop_def keys_assign)

lemma distinct_set_prop:
  "distinct (map fst obj) \<Longrightarrow> distinct (map fst (set_prop obj k v))"
  by (simp add: set_prop_def map_fst_assign)

lemma match_fields_keys:
  "fst ` set (match_fields defs acc i xs) =
     fst ` set acc \<union> (field_key defs ` {i..<i + length xs} - {''__proto__''})"
proof (induction xs arbitrary: acc i)
  case Nil
  then show ?case by simp
next
  case (Cons x xs)
  have "{i..<i + length (x # xs)} = insert i {Suc i..<Suc i + length xs}" by auto
  then have "field_key defs ` {i..<i + length (x # xs)} - {''__proto__''} =
      ({field_key defs i} - {''__proto__''}) \<union>
      (field_key defs ` {Suc i..<Suc i + length xs} - {''__proto__''})"
    by (simp only: image_insert) (rule set_eqI, simp, metis)
  moreover have "fst ` set (match_fields defs acc i (x # xs)) =
      fst ` set acc \<union> ({field_key defs i} - {''__proto__''}) \<union>
      (field_key defs ` {Suc i..<Suc i + length xs} - {''__proto__''})"
    by (simp add: Cons.IH keys_set_prop)
  ultimately show ?case by (simp only: Un_assoc)
qed

lemma match_fields_distinct:
  "distinct (map fst acc) \<Longrightarrow> distinct (map fst (match_fields defs acc i xs))"
  by (induction xs arbitrary: acc i) (simp_all add: distinct_set_prop)

lemma on_catch_stream_no_Success: "Success recs \<notin> set (on_catch_stream fileHandle p)"
  by (simp add: on_catch_stream_def errEmitter_error_def split: promise.split option.split)

lemma field_key_image: "field_key defs ` {0..<length defs} = set defs"
proof -
  have "field_key defs ` {0..<length defs} = (!) defs ` {0..<length defs}"
    by (rule image_cong) (simp_all add: field_key_def)
  also have "\<dots> = set (take (length defs) defs)" by (rule nth_image) simp
  finally show ?thesis by simp
qed

lemma data_object_keys:
  assumes "length xs = length defs"
  shows "set (map fst (match_fields defs [] 0 xs)) = set defs - {''__proto__''}"
    and "distinct (map fst (match_fields defs [] 0 xs))"
    and "length (match_fields defs [] 0 xs) \<le> length defs"
    and "distinct defs \<Longrightarrow> ''__proto__'' \<notin> set defs \<Longrightarrow>
         length (match_fields defs [] 0 xs) = length defs"
proof -
  let ?r = "match_fields defs [] 0 xs"
  show k: "set (map fst ?r) = set defs - {''__proto__''}"
    using match_fields_keys[of defs "[]" 0 xs] assms by (simp add: field_key_image)
  show d: "distinct (map fst ?r)" by (rule match_fields_distinct) simp
  have "length ?r = length (map fst ?r)" by simp
  also have "\<dots> = card (set (map fst ?r))" using distinct_card[OF d] by simp
  finally have l: "length ?r = card (set defs - {''__proto__''})" by (simp only: k)
  have "card (set defs - {''__proto__''}) \<le> card (set defs)"
    by (rule card_mono) auto
  then show "length ?r \<le> length defs" using l card_length[of defs] by linarith
  show "length ?r = length defs" if "distinct defs" "''__proto__'' \<notin> set defs"
    using that l by (simp add: distinct_card)
qed

lemma getData_FulfilledD:
  assumes "getData fileStr (Some h) (Some defs) = Fulfilled recs"
  shows "\<exists>dataStr. exec_data fileStr = Some dataStr \<and>
      (\<forall>elem \<in> set (filter (\<lambda>current. length current > 0)
                           (map trim (split_by dataStr (get_prop h ''EOR'')))).
           length (butlast (split_by elem (get_prop h ''EOF''))) = length defs) \<and>
      recs = map (\<lambda>elem. match_fields defs [] 0 (butlast (split_by elem (get_prop h ''EOF''))))
             (filter (\<lambda>current. length current > 0)
                (map trim (split_by dataStr (get_prop h ''EOR''))))"
proof -
  have c: "\<not> header_incomplete (Some h)"
  proof
    assume "header_incomplete (Some h)"
    from getData_incomplete[OF this, of fileStr "Some defs"] assms show False by simp
  qed
  obtain dataStr where d: "exec_data fileStr = Some dataStr"
  proof (cases "exec_data fileStr")
    case None
    from getData_no_section[OF None c, of defs] assms show ?thesis by simp
  next
    case (Some a)
    then show ?thesis using that by blast
  qed
  let ?valid = "filter (\<lambda>current. length current > 0)
                           (map trim (split_by dataStr (get_prop h ''EOR'')))"
  let ?bad = "\<exists>elem \<in> set ?valid.
           length (butlast (split_by elem (get_prop h ''EOF''))) \<noteq> length defs"
  note e = assms[unfolded getData_complete[OF c d]]
  have nb: "\<not> ?bad"
  proof
    assume ?bad
    with e show False by (simp only: if_True) simp
  qed
  with e have "recs = map (\<lambda>elem. match_fields defs [] 0 (butlast (split_by elem (get_prop h ''EOF'')))) ?valid"
    by (simp only: if_False promise.inject)
  with nb d show ?thesis by blast
qed

lemma parseBlmFile_stages:
  assumes "validateFileHandle fileHandle = Fulfilled ok" "fs fileHandle = Chunks fileStr"
  shows "parseBlmFile fs fileHandle True = Inr
     (case getHeader fileStr of
        Fulfilled header \<Rightarrow>
          (case getDefinitions fileStr (Some header) of
             Fulfilled defs \<Rightarrow>
               (case getData fileStr (Some header) (Some defs) of
                  Fulfilled data \<Rightarrow> if ok then [Success data] else []
                | Rejected e \<Rightarrow> [Failure data_message e]
                | Pending \<Rightarrow> [])
           | Rejected e \<Rightarrow> [Failure definition_message e]
           | Pending \<Rightarrow> [])
      | Rejected e \<Rightarrow> [Failure header_message e]
      | Pending \<Rightarrow> [])"
  using assms
  by (simp add: parseBlmFile_def parse_executor_def streamInData_def resolve_def
      reject_def on_catch_def errEmitter_error_def on_then_def split: promise.split)

lemma parseBlmFile_no_chunks:
  assumes "\<And>fileStr. fs fileHandle \<noteq> Chunks fileStr"
  shows "\<exists>p. parseBlmFile fs fileHandle True = Inr (on_catch_stream fileHandle (p :: string promise))"
proof -
  obtain ok where v: "validateFileHandle fileHandle = Fulfilled ok"
    using validateFileHandle_fulfilled by blast
  show ?thesis
  proof (cases "fs fileHandle")
    case (Throws e)
    then have "parseBlmFile fs fileHandle True =
        Inr (on_catch_stream fileHandle (Rejected e :: string promise))"
      using v
      by (simp add: parseBlmFile_def parse_executor_def streamInData_def throw_def
          reject_def on_then_def)
    then show ?thesis by blast
  next
    case ErrorEvent
    then have "parseBlmFile fs fileHandle True =
        Inr (on_catch_stream fileHandle (Rejected (Error []) :: string promise))"
      using v
      by (simp add: parseBlmFile_def parse_executor_def streamInData_def throw_def
          reject_def on_then_def)
    then show ?thesis by blast
  next
    case (Chunks fileStr)
    then show ?thesis using assms by blast
  qed
qed

lemma parseBlmFile_SuccessD:
  assumes "parseBlmFile fs fileHandle True = Inr [Success recs]"
  shows "\<exists>fileStr header defs. fs fileHandle = Chunks fileStr \<and>
      getHeader fileStr = Fulfilled header \<and>
      getDefinitions fileStr (Some header) = Fulfilled defs \<and>
      getData fileStr (Some header) (Some defs) = Fulfilled recs"
proof -
  obtain ok where v: "validateFileHandle fileHandle = Fulfilled ok"
    using validateFileHandle_fulfilled by blast
  obtain fileStr where c: "fs fileHandle = Chunks fileStr"
  proof (cases "\<exists>fileStr. fs fileHandle = Chunks fileStr")
    case True
    then show ?thesis using that by blast
  next
    case False
    then obtain p :: "string promise" where
      "parseBlmFile fs fileHandle True = Inr (on_catch_stream fileHandle p)"
      using parseBlmFile_no_chunks[of fs fileHandle] by blast
    with assms have "Success recs \<in> set (on_catch_stream fileHandle p)" by simp
    then show ?thesis using on_catch_stream_no_Success by blast
  qed
  have "parseBlmFile fs fileHandle True = Inr
     (case getHeader fileStr of
        Fulfilled header \<Rightarrow>
          (case getDefinitions fileStr (Some header) of
             Fulfilled defs \<Rightarrow>
               (case getData fileStr (Some header) (Some defs) of
                  Fulfilled data \<Rightarrow> if ok then [Success data] else []
                | Rejected e \<Rightarrow> [Failure data_message e]
                | Pending \<Rightarrow> [])
           | Rejected e \<Rightarrow> [Failure definition_message e]
           | Pending \<Rightarrow> [])
      | Rejected e \<Rightarrow> [Failure header_message e]
      | Pending \<Rightarrow> [])"
    using v c by (rule parseBlmFile_stages)
  note e = assms[unfolded this]
  obtain header where h: "getHeader fileStr = Fulfilled header"
    using e by (cases "getHeader fileStr") simp_all
  obtain defs where d: "getDefinitions fileStr (Some header) = Fulfilled defs"
    using e h by (cases "getDefinitions fileStr (Some header)") simp_all
  have "getData fileStr (Some header) (Some defs) = Fulfilled recs"
    using e h d by (cases "getData fileStr (Some header) (Some defs)") (simp_all split: if_splits)
  with c h d show ?thesis by blast
qed

text \<open>
  C8, as the code has it. When the parse succeeds, the result has one record for each
  record candidate of the data section that is not empty after trimming; the keys of
  every record are the distinct definitions other than \<^verbatim>\<open>__proto__\<close>, so a
  record has at most as many keys as there are definitions, and exactly as many when
  the definitions are pairwise distinct and none is \<^verbatim>\<open>__proto__\<close>.
\<close>

theorem parse_success_records:
  assumes "parseBlmFile fs fileHandle True = Inr [Success records]"
  shows "\<exists>fileStr header definitions dataStr.
      fs fileHandle = Chunks fileStr \<and> getHeader fileStr = Fulfilled header \<and>
      getDefinitions fileStr (Some header) = Fulfilled definitions \<and>
      exec_data fileStr = Some dataStr \<and>
      length records =
        length (filter (\<lambda>current. length current > 0)
                  (map trim (split_by dataStr (get_prop header ''EOR'')))) \<and>
      (\<forall>r \<in> set records.
         set (map fst r) = set definitions - {''__proto__''} \<and>
         distinct (map fst r) \<and>
         length r \<le> length definitions \<and>
         (distinct definitions \<and> ''__proto__'' \<notin> set definitions \<longrightarrow>
            length r = length definitions))"
proof -
  from parseBlmFile_SuccessD[OF assms] obtain fileStr header defs where
    s: "fs fileHandle = Chunks fileStr" "getHeader fileStr = Fulfilled header"
      "getDefinitions fileStr (Some header) = Fulfilled defs"
    and g: "getData fileStr (Some header) (Some defs) = Fulfilled records"
    by blast
  let ?vals = "\<lambda>elem. butlast (split_by elem (get_prop header ''EOF''))"
  from getData_FulfilledD[OF g] obtain dataStr where
    d: "exec_data fileStr = Some dataStr"
    and a: "\<forall>elem \<in> set (filter (\<lambda>current. length current > 0)
                           (map trim (split_by dataStr (get_prop header ''EOR'')))).
           length (?vals elem) = length defs"
    and r: "records = map (\<lambda>elem. match_fields defs [] 0 (?vals elem))
             (filter (\<lambda>current. length current > 0)
                (map trim (split_by dataStr (get_prop header ''EOR''))))"
    by blast
  have n: "length records =
        length (filter (\<lambda>current. length current > 0)
                  (map trim (split_by dataStr (get_prop header ''EOR''))))"
    by (simp add: r)
  have k: "set (map fst r') = set defs - {''__proto__''} \<and>
         distinct (map fst r') \<and>
         length r' \<le> length defs \<and>
         (distinct defs \<and> ''__proto__'' \<notin> set defs \<longrightarrow> length r' = length defs)"
    if "r' \<in> set records" for r'
  proof -
    from that r obtain elem where
      e: "elem \<in> set (filter (\<lambda>current. length current > 0)
                           (map trim (split_by dataStr (get_prop header ''EOR''))))"
      and r': "r' = match_fields defs [] 0 (?vals elem)"
      by auto
    from a e have "length (?vals elem) = length defs" by blast
    from data_object_keys[OF this] show ?thesis unfolding r' by blast
  qed
  from s d n k show ?thesis by blast
qed

theorem parse_success_records_witness:
  "parseBlmFile (single_file ''alice.blm'' alice_file) (JString ''alice.blm'') True =
     Inr [Success [[(''name'', ''Alice''), (''address'', ''123 Rd''), (''price;'', ''100000'')]]] \<and>
   (\<exists>fileStr header definitions dataStr.
      single_file ''alice.blm'' alice_file (JString ''alice.blm'') = Chunks fileStr \<and>
      getHeader fileStr = Fulfilled header \<and>
      getDefinitions fileStr (Some header) = Fulfilled definitions \<and>
      exec_data fileStr = Some dataStr \<and>
      length [[(''name'', ''Alice''), (''address'', ''123 Rd''), (''price;'', ''100000'')]] =
        length (filter (\<lambda>current. length current > 0)
                  (map trim (split_by dataStr (get_prop header ''EOR'')))) \<and>
      (\<forall>r \<in> set [[(''name'', ''Alice''), (''address'', ''123 Rd''), (''price;'', ''100000'')]].
         set (map fst r) = set definitions - {''__proto__''} \<and>
         distinct (map fst r) \<and>
         length r \<le> length definitions \<and>
         (distinct definitions \<and> ''__proto__'' \<notin> set definitions \<longrightarrow>
            length r = length definitions)))"
proof -
  have h: "parseBlmFile (single_file ''alice.blm'' alice_file) (JString ''alice.blm'') True =
     Inr [Success [[(''name'', ''Alice''), (''address'', ''123 Rd''), (''price;'', ''100000'')]]]"
    by code_simp
  from parse_success_records[of "single_file ''alice.blm'' alice_file" "JString ''alice.blm''"
      "[[(''name'', ''Alice''), (''address'', ''123 Rd''), (''price;'', ''100000'')]]", OF h] h
  show ?thesis by (intro conjI)
qed

text \<open>
  With the definitions \<^verbatim>\<open>a|a|;\<close> and the data \<^verbatim>\<open>1|2|;\<close> the parse
  succeeds with a record of one key for two definitions.
\<close>

theorem twice_file_counterexample:
  "getHeader twice_file = Fulfilled [(''EOF'', Some ''|''), (''EOR'', Some '';'')] \<and>
   getDefinitions twice_file (Some [(''EOF'', Some ''|''), (''EOR'', Some '';'')]) =
     Fulfilled [''a'', ''a''] \<and>
   parseBlmFile (single_file ''twice.blm'' twice_file) (JString ''twice.blm'') True =
     Inr [Success [[(''a'', ''2'')]]] \<and>
   length (map fst [(''a'', ''2'')]) = 1 \<and> length [''a'', ''a''] = 2"
  by code_simp

subsection \<open>The sample of the specification\<close>

text \<open>
  C1, as the code has it. For the file with header \<^verbatim>\<open>EOF:|\<close>,
  \<^verbatim>\<open>EOR:;\<close>, definitions \<^verbatim>\<open>name|address|price;\<close> and data
  \<^verbatim>\<open>Alice|123 Rd|100000|;\<close> the parse succeeds with one record, whose third
  key is \<^verbatim>\<open>price;\<close>: the record separator is removed from the definitions
  only where it is a piece of its own, after a field separator. With the definitions
  \<^verbatim>\<open>name|address|price|;\<close> the third key is \<^verbatim>\<open>price\<close>.
\<close>

theorem alice_file_record:
  "parseBlmFile (single_file ''alice.blm'' alice_file) (JString ''alice.blm'') True =
     Inr [Success [[(''name'', ''Alice''), (''address'', ''123 Rd''), (''price;'', ''100000'')]]] \<and>
   parseBlmFile (single_file ''alice.blm'' alice_file_closed) (JString ''alice.blm'') True =
     Inr [Success [[(''name'', ''Alice''), (''address'', ''123 Rd''), (''price'', ''100000'')]]]"
  by code_simp

text \<open>The record of C1, with the key \<^verbatim>\<open>price\<close>, is not what the callback receives.\<close>

theorem alice_file_price_counterexample:
  "parseBlmFile (single_file ''alice.blm'' alice_file) (JString ''alice.blm'') True \<noteq>
     Inr [Success [[(''name'', ''Alice''), (''address'', ''123 Rd''), (''price'', ''100000'')]]]"
  by code_simp

subsection \<open>Outcomes delivered to the callback\<close>

lemma resolve_settled: "resolve v p \<noteq> Pending"
  by (cases p) (simp_all add: resolve_def)

lemma throw_settled: "throw e p \<noteq> Pending"
  by (cases p) (simp_all add: throw_def reject_def)

lemma getHeader_settled: "getHeader fileStr \<noteq> Pending"
  by (simp add: getHeader_def Let_def resolve_settled throw_settled split: option.split)

lemma getDefinitions_settled: "getDefinitions fileStr header \<noteq> Pending"
  by (simp add: getDefinitions_def Let_def resolve_settled throw_settled split: option.split)

lemma getData_settled: "getData fileStr header definitions \<noteq> Pending"
  by (simp add: getData_def Let_def resolve_settled throw_settled split: option.split)

lemma validateFileHandle_True:
  "validateFileHandle fileHandle = Fulfilled True \<Longrightarrow> \<exists>s. fileHandle = JString s"
  using validateFileHandle_not_string[of fileHandle] by fastforce

text \<open>A file handle the validator accepts gets exactly one call of the callback.\<close>

lemma parseBlmFile_valid_handle:
  assumes "validateFileHandle fileHandle = Fulfilled True"
  shows "\<exists>out. parseBlmFile fs fileHandle True = Inr [out]"
proof (cases "fs fileHandle")
  case (Chunks fileStr)
  show ?thesis
    unfolding parseBlmFile_stages[of fileHandle True fs fileStr, OF assms Chunks]
    using getHeader_settled[of fileStr]
    by (auto split: promise.split
        simp: getDefinitions_settled getData_settled)
next
  case (Throws e)
  from validateFileHandle_True[OF assms] obtain s where "fileHandle = JString s" by blast
  with Throws assms show ?thesis
    by (simp add: parseBlmFile_def parse_executor_def streamInData_def throw_def
        reject_def on_then_def on_catch_stream_def errEmitter_error_def)
next
  case ErrorEvent
  from validateFileHandle_True[OF assms] obtain s where "fileHandle = JString s" by blast
  with ErrorEvent assms show ?thesis
    by (simp add: parseBlmFile_def parse_executor_def streamInData_def throw_def
        reject_def on_then_def on_catch_stream_def errEmitter_error_def)
qed

text \<open>A file handle it refuses gets none when every stage succeeds.\<close>

lemma parseBlmFile_invalid_handle:
  assumes "validateFileHandle fileHandle = Fulfilled False"
    "fs fileHandle = Chunks fileStr" "getHeader fileStr = Fulfilled header"
    "getDefinitions fileStr (Some header) = Fulfilled definitions"
    "getData fileStr (Some header) (Some definitions) = Fulfilled data"
  shows "parseBlmFile fs fileHandle True = Inr []"
  unfolding parseBlmFile_stages[of fileHandle False fs fileStr, OF assms(1,2)]
  using assms(3-5) by simp

text \<open>
  C2 at a path the validator refuses, where the file is there and well formed: the
  validator answers \<^verbatim>\<open>false\<close>, \<^verbatim>\<open>parsePromise\<close> is rejected, the stages run
  all the same and succeed, and the callback is never called.
\<close>

theorem invalid_handle_silent:
  "validateFileHandle (JString ''alice.txt'') = Fulfilled False \<and>
   parseBlmFile (single_file ''alice.txt'' alice_file) (JString ''alice.txt'') True = Inr []"
  by code_simp

end
